theory Spec2Isabelle
  imports Complex_Main "HOL-Library.Word"
begin

unbundle bit_operations_syntax

section \<open>The load generator of \<^verbatim>\<open>mixed_load.cpp\<close>\<close>

text \<open>
  The program has two functions: \<^verbatim>\<open>x86_task\<close>, the per-thread routine, and
  \<^verbatim>\<open>main\<close>, which reads the thread count and starts the threads. Both are
  embedded below, statement by statement.

  \<^item> \<^verbatim>\<open>unsigned int\<close> is a 32-bit word; \<open>+\<close>, \<open>-\<close> and \<open>*\<close> wrap around.
  \<^item> \<^verbatim>\<open>int\<close> array elements are 32-bit words read in two's complement
    (\<open>sint\<close>); loop counters, which stay far below \<open>2 ^ 31\<close>, are \<open>nat\<close>.
  \<^item> \<^verbatim>\<open>float\<close> arithmetic belongs to the platform, so it is a parameter: a
    record of the operations the routine uses. Every theorem about the
    floating-point phase holds for each such record.
  \<^item> \<^verbatim>\<open>volatile\<close> only stops the compiler from removing loads and stores;
    it does not change the values computed.
\<close>

type_synonym u32 = "32 word"
type_synonym s32 = "32 word"

subsection \<open>Integer phase (lines 19 to 28)\<close>

definition a :: u32 where "a = 1"
definition b :: u32 where "b = 2"
definition c :: u32 where "c = 3"
definition d :: u32 where "d = 4"

text \<open>Line 23: \<^verbatim>\<open>(result << 3) | (result >> 29)\<close>.\<close>

definition rotate :: "u32 \<Rightarrow> u32" where
  "rotate v = push_bit 3 v OR drop_bit 29 v"

text \<open>Lines 20 to 23: the four updates of one step, before the test for zero.\<close>

definition int_ops :: "u32 \<Rightarrow> u32" where
  "int_ops result =
     (let r1 = result + a * b;
          r2 = r1 - c;
          r3 = r2 XOR d
      in rotate r3)"

text \<open>Lines 20 to 27: one step of the loop body.\<close>

definition int_step :: "u32 \<Rightarrow> u32" where
  "int_step result =
     (let r = int_ops result
      in if r = 0 then a + b + c + d else r)"

definition INNER_STEPS :: nat where "INNER_STEPS = 1000000"

text \<open>Line 19: \<^verbatim>\<open>for (volatile int i = 0; i < 1000000; ++i)\<close>.\<close>

function int_loop :: "nat \<Rightarrow> u32 \<Rightarrow> u32" where
  "int_loop i result =
     (if i < INNER_STEPS then int_loop (i + 1) (int_step result) else result)"
  by pat_completeness auto
termination
  by (relation "measure (\<lambda>(i, result). INNER_STEPS - i)") auto

declare int_loop.simps [simp del]

definition int_phase :: "u32 \<Rightarrow> u32" where
  "int_phase result = int_loop 0 result"

subsection \<open>Floating-point phase (lines 31 to 39)\<close>

text \<open>
  The platform's single-precision arithmetic: the value of a decimal
  literal, the three operations and the comparison that the routine uses.
\<close>

record 'f fpu =
  flit :: "real \<Rightarrow> 'f"
  fmul :: "'f \<Rightarrow> 'f \<Rightarrow> 'f"
  fadd :: "'f \<Rightarrow> 'f \<Rightarrow> 'f"
  fdiv :: "'f \<Rightarrow> 'f \<Rightarrow> 'f"
  fgt :: "'f \<Rightarrow> 'f \<Rightarrow> bool"

text \<open>An instance without rounding, on which the model can be run.\<close>

definition exact_fpu :: "real fpu" where
  "exact_fpu = \<lparr>flit = (\<lambda>r. r), fmul = (*), fadd = (+), fdiv = (/), fgt = (\<lambda>u v. u > v)\<rparr>"

definition x :: "'f fpu \<Rightarrow> 'f" where "x F = flit F (123 / 100)"
definition y :: "'f fpu \<Rightarrow> 'f" where "y F = flit F (456 / 100)"
definition z :: "'f fpu \<Rightarrow> 'f" where "z F = flit F (789 / 100)"

text \<open>Lines 32 to 34: the value the step computes, before the test.\<close>

definition float_ops :: "'f fpu \<Rightarrow> 'f" where
  "float_ops F =
     (let f1 = fmul F (x F) (y F);
          f2 = fadd F f1 (z F)
      in fdiv F f2 (y F))"

text \<open>Line 37: \<^verbatim>\<open>x + y + z\<close>, which C++ reads as \<^verbatim>\<open>(x + y) + z\<close>.\<close>

definition float_reset :: "'f fpu \<Rightarrow> 'f" where
  "float_reset F = fadd F (fadd F (x F) (y F)) (z F)"

text \<open>
  Lines 32 to 38: one step of the loop body. The first statement,
  \<^verbatim>\<open>f_result = x * y\<close>, is an assignment, so the value the accumulator
  held before the step is not read.
\<close>

definition float_step :: "'f fpu \<Rightarrow> 'f \<Rightarrow> 'f" where
  "float_step F f_result =
     (let f1 = fmul F (x F) (y F);
          f2 = fadd F f1 (z F);
          f3 = fdiv F f2 (y F)
      in if fgt F f3 (flit F 100) then fadd F (fadd F (x F) (y F)) (z F) else f3)"

function float_loop :: "'f fpu \<Rightarrow> nat \<Rightarrow> 'f \<Rightarrow> 'f" where
  "float_loop F i f_result =
     (if i < INNER_STEPS then float_loop F (i + 1) (float_step F f_result) else f_result)"
  by pat_completeness auto
termination
  by (relation "measure (\<lambda>(F, i, f_result). INNER_STEPS - i)") auto

declare float_loop.simps [simp del]

definition float_phase :: "'f fpu \<Rightarrow> 'f \<Rightarrow> 'f" where
  "float_phase F f_result = float_loop F 0 f_result"

subsection \<open>Memory phase (lines 42 to 47)\<close>

definition ARRAY_SIZE :: nat where "ARRAY_SIZE = 1024 * 1024"

text \<open>
  Both loops take the buffer size as an argument, so that they can be run on
  small buffers; the routine calls them with \<open>ARRAY_SIZE\<close>, the length of the
  buffer it allocated.

  Lines 42 to 44: \<^verbatim>\<open>array[i] = i * 2\<close>.
\<close>

function write_pass :: "nat \<Rightarrow> nat \<Rightarrow> s32 list \<Rightarrow> s32 list" where
  "write_pass n i array =
     (if i < n then write_pass n (i + 1) (array[i := of_nat i * 2]) else array)"
  by pat_completeness auto
termination
  by (relation "measure (\<lambda>(n, i, array). n - i)") auto

declare write_pass.simps [simp del]

text \<open>
  Lines 45 to 47: \<^verbatim>\<open>array[i] += array[(i + 1) % ARRAY_SIZE]\<close>, in place: the
  right-hand side is read from the buffer as it is when step \<open>i\<close> runs.
\<close>

function accumulate_pass :: "nat \<Rightarrow> nat \<Rightarrow> s32 list \<Rightarrow> s32 list" where
  "accumulate_pass n i array =
     (if i < n
      then accumulate_pass n (i + 1) (array[i := array ! i + array ! ((i + 1) mod n)])
      else array)"
  by pat_completeness auto
termination
  by (relation "measure (\<lambda>(n, i, array). n - i)") auto

declare accumulate_pass.simps [simp del]

definition memory_phase :: "nat \<Rightarrow> s32 list \<Rightarrow> s32 list" where
  "memory_phase n array = accumulate_pass n 0 (write_pass n 0 array)"

subsection \<open>The routine \<^verbatim>\<open>x86_task\<close> (lines 7 to 54)\<close>

record 'f task_state =
  result :: u32
  f_result :: 'f
  array :: "s32 list"

text \<open>Line 50: the sleep takes time and changes no variable.\<close>

definition pause :: "'f task_state \<Rightarrow> 'f task_state" where
  "pause s = s"

text \<open>Lines 18 to 50: one round of the outer loop.\<close>

definition round_body :: "'f fpu \<Rightarrow> 'f task_state \<Rightarrow> 'f task_state" where
  "round_body F s =
     (let s1 = s\<lparr>result := int_phase (result s)\<rparr>;
          s2 = s1\<lparr>f_result := float_phase F (f_result s1)\<rparr>;
          s3 = s2\<lparr>array := memory_phase ARRAY_SIZE (array s2)\<rparr>
      in pause s3)"

datatype exn = Invalid_argument | Out_of_range | Bad_alloc | System_error

text \<open>
  Line 17: \<^verbatim>\<open>while (true)\<close> has no \<^verbatim>\<open>break\<close> and no \<^verbatim>\<open>return\<close> in its body.
  The result \<open>None\<close> stands for a loop that never ends; \<open>Some s\<close> would be the
  state in which control reaches line 53.
\<close>

partial_function (option) x86_loop :: "'f fpu \<Rightarrow> 'f task_state \<Rightarrow> 'f task_state option" where
  "x86_loop F s = x86_loop F (round_body F s)"

text \<open>
  Lines 8 to 15 and 53: the initial values, the allocation and the release.
  The argument \<open>alloc\<close> is the answer of \<^verbatim>\<open>new int[ARRAY_SIZE]\<close>: \<open>None\<close> when
  it throws \<^verbatim>\<open>std::bad_alloc\<close>, otherwise the fresh buffer with whatever it
  holds. The routine ends with \<open>Some (Inl e)\<close> on an exception, with
  \<open>Some (Inr ())\<close> when it returns, and with \<open>None\<close> when it does neither.
\<close>

definition x86_task :: "'f fpu \<Rightarrow> s32 list option \<Rightarrow> (exn + unit) option" where
  "x86_task F alloc =
     (case alloc of
        None \<Rightarrow> Some (Inl Bad_alloc)
      | Some buffer \<Rightarrow>
          (case x86_loop F \<lparr>result = 0, f_result = flit F 0, array = buffer\<rparr> of
             None \<Rightarrow> None
           | Some s \<Rightarrow> Some (Inr ())))"

subsection \<open>The harness \<^verbatim>\<open>main\<close> (lines 56 to 75)\<close>

text \<open>
  \<^verbatim>\<open>std::stoi\<close> is the standard library's: it calls \<^verbatim>\<open>strtol\<close> in base 10,
  which skips leading white space, reads an optional sign and then the
  longest run of digits, and ignores what follows. It throws
  \<^verbatim>\<open>std::invalid_argument\<close> when there is no digit to read and
  \<^verbatim>\<open>std::out_of_range\<close> when the value does not fit an \<^verbatim>\<open>int\<close>.
\<close>

definition isspace :: "char \<Rightarrow> bool" where
  "isspace ch = (ch \<in> set [CHR '' '', CHR 0x09, CHR 0x0A, CHR 0x0B, CHR 0x0C, CHR 0x0D])"

definition isdigit :: "char \<Rightarrow> bool" where
  "isdigit ch = ((48::nat) \<le> of_char ch \<and> of_char ch \<le> (57::nat))"

definition digit_value :: "char \<Rightarrow> int" where
  "digit_value ch = of_char ch - 48"

fun digits_value :: "int \<Rightarrow> string \<Rightarrow> int" where
  "digits_value acc [] = acc"
| "digits_value acc (ch # cs) = digits_value (acc * 10 + digit_value ch) cs"

definition INT_MIN :: int where "INT_MIN = - (2 ^ 31)"
definition INT_MAX :: int where "INT_MAX = 2 ^ 31 - 1"

text \<open>What is left of the string where \<^verbatim>\<open>strtol\<close> starts to read digits.\<close>

definition skip_sign :: "string \<Rightarrow> string" where
  "skip_sign s = (if s \<noteq> [] \<and> (hd s = CHR ''-'' \<or> hd s = CHR ''+'') then tl s else s)"

definition stoi :: "string \<Rightarrow> exn + int" where
  "stoi str =
     (let s1 = dropWhile isspace str;
          negative = (s1 \<noteq> [] \<and> hd s1 = CHR ''-'');
          ds = takeWhile isdigit (skip_sign s1)
      in if ds = [] then Inl Invalid_argument
         else let v = (if negative then - digits_value 0 ds else digits_value 0 ds)
              in if v < INT_MIN \<or> INT_MAX < v then Inl Out_of_range else Inr v)"

text \<open>
  Lines 57 to 61: the thread count. The value of
  \<^verbatim>\<open>std::thread::hardware_concurrency()\<close>, an \<^verbatim>\<open>unsigned int\<close>, is stored into the
  \<^verbatim>\<open>int num_threads\<close>; a first argument replaces it. The list \<open>argv\<close> has length
  \<^verbatim>\<open>argc\<close>.
\<close>

definition thread_count :: "u32 \<Rightarrow> string list \<Rightarrow> exn + int" where
  "thread_count hardware_concurrency argv =
     (if length argv > 1 then stoi (argv ! 1) else Inr (sint hardware_concurrency))"

text \<open>
  Lines 63 to 67: the launch loop. A thread is named by its position in the
  vector. The constructor of \<^verbatim>\<open>std::thread\<close> throws \<^verbatim>\<open>std::system_error\<close> when
  the system cannot start the thread; \<open>spawn t\<close> says whether it can start
  thread \<open>t\<close>. The loop gives the threads it has started, and the exception
  that ended it, if one did.
\<close>

function launch_loop :: "(nat \<Rightarrow> bool) \<Rightarrow> int \<Rightarrow> int \<Rightarrow> nat list \<Rightarrow> nat list \<times> exn option" where
  "launch_loop spawn i num_threads threads =
     (if i < num_threads
      then (if spawn (length threads)
            then launch_loop spawn (i + 1) num_threads (threads @ [length threads])
            else (threads, Some System_error))
      else (threads, None))"
  by pat_completeness auto
termination
  by (relation "measure (\<lambda>(spawn, i, num_threads, threads). nat (num_threads - i))") auto

declare launch_loop.simps [simp del]

text \<open>
  How the process ends: with the value \<^verbatim>\<open>main\<close> returns, by
  \<^verbatim>\<open>std::terminate\<close> on an exception nobody catches, or not at all.
\<close>

datatype status = Exit int | Uncaught exn | Never_exits

text \<open>
  The lists below hold how the routine of each thread ends. An exception
  that leaves the routine of any thread ends the whole process.
\<close>

fun uncaught :: "(exn + unit) option list \<Rightarrow> exn option" where
  "uncaught [] = None"
| "uncaught (Some (Inl e) # ts) = Some e"
| "uncaught (Some (Inr u) # ts) = uncaught ts"
| "uncaught (None # ts) = uncaught ts"

text \<open>
  Lines 70 to 74: \<^verbatim>\<open>thread.join()\<close> returns when the thread's routine has
  returned; after the last one \<^verbatim>\<open>main\<close> returns 0.
\<close>

fun join_loop :: "(exn + unit) option list \<Rightarrow> status" where
  "join_loop [] = Exit 0"
| "join_loop (None # ts) = Never_exits"
| "join_loop (Some r # ts) = join_loop ts"

definition run_threads :: "(exn + unit) option list \<Rightarrow> status" where
  "run_threads ends =
     (case uncaught ends of Some e \<Rightarrow> Uncaught e | None \<Rightarrow> join_loop ends)"

record run =
  launched :: nat
  status :: status

text \<open>
  Lines 56 to 75. The arguments are the platform's floating-point unit,
  whether the system can start each thread, the answer of \<^verbatim>\<open>new\<close> in each
  thread, the value of \<^verbatim>\<open>std::thread::hardware_concurrency()\<close> and \<^verbatim>\<open>argv\<close>.
  No exception is caught anywhere: one thrown by \<^verbatim>\<open>std::stoi\<close> ends the
  process before the launch loop, one thrown by the constructor of a thread
  ends it inside the loop.

  The threads run concurrently with \<^verbatim>\<open>main\<close>. The model follows the schedule
  in which they start to run when the launch loop is over. When no
  allocation fails, the routines do nothing that \<^verbatim>\<open>main\<close> observes, and
  every schedule gives the same result.
\<close>

definition main ::
  "'f fpu \<Rightarrow> (nat \<Rightarrow> bool) \<Rightarrow> (nat \<Rightarrow> s32 list option) \<Rightarrow> u32 \<Rightarrow> string list \<Rightarrow> run" where
  "main F spawn heap hardware_concurrency argv =
     (case thread_count hardware_concurrency argv of
        Inl e \<Rightarrow> \<lparr>launched = 0, status = Uncaught e\<rparr>
      | Inr num_threads \<Rightarrow>
          (case launch_loop spawn 0 num_threads [] of
             (threads, Some e) \<Rightarrow> \<lparr>launched = length threads, status = Uncaught e\<rparr>
           | (threads, None) \<Rightarrow>
               \<lparr>launched = length threads,
                status = run_threads (map (\<lambda>t. x86_task F (heap t)) threads)\<rparr>))"

section \<open>The integer phase\<close>

lemma rotate_index:
  "n < 32 \<Longrightarrow> (n + 29) mod 32 = (if n < 3 then n + 29 else n - 3)" for n :: nat
  by (auto simp add: mod_if)

lemma rotate_eq_word_rotl: "rotate v = word_rotl 3 v"
  unfolding rotate_def
proof (rule bit_word_eqI)
  fix n :: nat
  assume "n < LENGTH(32)"
  then have n32: "n < 32" by simp
  show "bit (push_bit 3 v OR drop_bit 29 v) n = bit (word_rotl 3 v) n"
  proof (cases "n < 3")
    case True
    then show ?thesis using n32
      by (simp add: bit_simps rotate_index add.commute)
  next
    case False
    then have "\<not> bit v (29 + n)"
      using bit_imp_le_length [of v "29 + n"] by auto
    then show ?thesis using n32 False
      by (simp add: bit_simps rotate_index)
  qed
qed

lemma unat_shift_left: "unat (push_bit 3 v) = (unat v * 2 ^ 3) mod 2 ^ 32" for v :: u32
  by (simp add: push_bit_eq_mult unat_word_ariths)

lemma unat_shift_right: "unat (drop_bit 29 v) = unat v div 2 ^ 29" for v :: u32
  by (simp add: drop_bit_eq_div unat_div)

lemma unat_rotate:
  "unat (rotate v) = (unat v * 2 ^ 3) mod 2 ^ 32 OR unat v div 2 ^ 29"
  unfolding rotate_def unsigned_or_eq unat_shift_left unat_shift_right ..

lemma rotate_eq_0_iff: "rotate v = 0 \<longleftrightarrow> v = 0"
  unfolding rotate_eq_word_rotl by (metis word_rot_lr word_rotx_0)

lemma xor_d_eq_0_iff: "w XOR 4 = 0 \<longleftrightarrow> w = 4" for w :: u32
  by (metis xor.right_neutral bit.xor_left_self)

text \<open>The accumulator is zero after the four updates only when it was 5 before.\<close>

lemma int_ops_eq_0_iff: "int_ops r = 0 \<longleftrightarrow> r = 5"
proof -
  have "int_ops r = 0 \<longleftrightarrow> (r + 2 - 3) XOR 4 = 0"
    by (simp add: int_ops_def a_def b_def c_def d_def rotate_eq_0_iff)
  also have "\<dots> \<longleftrightarrow> r + 2 - 3 = 4"
    by (rule xor_d_eq_0_iff)
  also have "\<dots> \<longleftrightarrow> r = 5"
    by auto
  finally show ?thesis .
qed

lemma seed_sum: "a + b + c + d = 10"
  by (simp add: a_def b_def c_def d_def)

text \<open>
  C6. For every 32-bit value \<open>V\<close>, the rotate of line 23 is
  \<open>(V << 3) | (V >> 29)\<close> read on unsigned 32-bit numbers, where the left shift
  drops the bits that leave the word, and it is the circular rotation of the
  word by three places to the left.
\<close>

theorem rotate_is_rotate_left_3:
  "unat (rotate V) = (unat V * 2 ^ 3) mod 2 ^ 32 OR unat V div 2 ^ 29
   \<and> rotate V = word_rotl 3 V"
  by (rule conjI [OF unat_rotate rotate_eq_word_rotl])

text \<open>
  The loop from counter \<open>i\<close> on applies the step once for each counter value
  that is left: each step starts from the accumulator the step before it has
  left, and the loop ends with what the last step leaves.
\<close>

lemma int_loop_funpow: "int_loop i r = (int_step ^^ (INNER_STEPS - i)) r"
proof (induction i r rule: int_loop.induct)
  case (1 i r)
  show ?case
  proof (cases "i < INNER_STEPS")
    case True
    then have left: "INNER_STEPS - i = Suc (INNER_STEPS - (i + 1))"
      by simp
    have "int_loop i r = int_loop (i + 1) (int_step r)"
      using True by (subst int_loop.simps) simp
    also have "\<dots> = (int_step ^^ (INNER_STEPS - (i + 1))) (int_step r)"
      using "1.IH" [OF True] .
    also have "\<dots> = (int_step ^^ (INNER_STEPS - i)) r"
      unfolding left by (simp add: funpow_swap1)
    finally show ?thesis .
  next
    case False
    then show ?thesis by (subst int_loop.simps) simp
  qed
qed

lemma int_ops_eq: "int_ops r = word_rotl 3 ((r - 1) XOR 4)"
  by (simp add: int_ops_def a_def b_def c_def d_def rotate_eq_word_rotl)

lemma int_step_eq: "int_step r = (if int_ops r = 0 then 10 else int_ops r)"
  by (simp add: int_step_def seed_sum)

text \<open>
  C7. A step of the integer loop adds \<open>a * b\<close>, subtracts \<open>c\<close>, takes the
  exclusive or with \<open>d\<close> and rotates; with the seeds 1, 2, 3, 4 that is the
  rotation of \<open>(r - 1) XOR 4\<close>. When the accumulator is exactly 0 after these
  four updates, which happens from the accumulator 5 and from no other, the
  step leaves the sum of the four seeds, which is 10; otherwise it leaves
  the accumulator as the four updates left it. The loop passes what a step
  leaves to the next step: from counter \<open>i\<close> it applies the step
  \<open>INNER_STEPS - i\<close> times, and the phase applies it \<open>INNER_STEPS\<close> times.
\<close>

theorem integer_reset:
  "int_step r = (if int_ops r = 0 then 10 else int_ops r)
   \<and> int_ops r = word_rotl 3 ((r - 1) XOR 4)
   \<and> (int_ops r = 0) = (r = 5)
   \<and> (i < INNER_STEPS \<longrightarrow>
        int_loop i r = int_loop (i + 1) (if int_ops r = 0 then 10 else int_ops r))
   \<and> int_loop i r = (int_step ^^ (INNER_STEPS - i)) r
   \<and> int_phase r = (int_step ^^ INNER_STEPS) r"
proof -
  have "int_loop i r = int_loop (i + 1) (int_step r)" if "i < INNER_STEPS"
    using that by (subst int_loop.simps) simp
  then have next_step: "i < INNER_STEPS \<longrightarrow>
      int_loop i r = int_loop (i + 1) (if int_ops r = 0 then 10 else int_ops r)"
    by (simp add: int_step_eq)
  have phase: "int_phase r = (int_step ^^ INNER_STEPS) r"
    using int_loop_funpow [of 0 r] by (simp add: int_phase_def)
  show ?thesis
    using int_step_eq [of r] int_ops_eq [of r] int_ops_eq_0_iff [of r] next_step
      int_loop_funpow [of i r] phase
    by blast
qed

theorem integer_reset_witness:
  "0 < INNER_STEPS
   \<and> int_ops 5 = 0 \<and> int_step 5 = 10 \<and> int_loop 0 5 = int_loop (0 + 1) 10
   \<and> int_ops 1 = 32 \<and> int_step 1 = 32 \<and> int_loop 0 1 = int_loop (0 + 1) 32
   \<and> int_loop 0 1 = (int_step ^^ (INNER_STEPS - 0)) 1"
proof -
  have steps: "0 < INNER_STEPS" by (simp add: INNER_STEPS_def)
  have five: "int_ops 5 = 0"
    by (simp add: int_ops_def rotate_def a_def b_def c_def d_def)
  have one: "int_ops 1 = 32"
    by (simp add: int_ops_def rotate_def a_def b_def c_def d_def)
  note from_five = integer_reset [of 5 0]
  note from_one = integer_reset [of 1 0]
  have reset: "int_step 5 = 10" and reset_next: "int_loop 0 5 = int_loop (0 + 1) 10"
    using from_five steps five by simp_all
  have keep: "int_step 1 = 32" and keep_next: "int_loop 0 1 = int_loop (0 + 1) 32"
    using from_one steps one by simp_all
  have run: "int_loop 0 1 = (int_step ^^ (INNER_STEPS - 0)) 1"
    using from_one by blast
  show ?thesis
    using steps five reset reset_next one keep keep_next run by blast
qed

section \<open>The floating-point phase\<close>

lemma float_step_eq:
  "float_step F acc = (if fgt F (float_ops F) (flit F 100) then float_reset F else float_ops F)"
  by (simp add: float_step_def float_ops_def float_reset_def Let_def)

lemma float_loop_step:
  "i < INNER_STEPS \<Longrightarrow> float_loop F i acc = float_loop F (i + 1) (float_step F acc)"
  by (subst float_loop.simps) simp

lemma float_ops_exact: "float_ops exact_fpu = 11249 / 3800"
  by (simp add: float_ops_def exact_fpu_def x_def y_def z_def)

lemma float_reset_exact: "float_reset exact_fpu = 1368 / 100"
  by (simp add: float_reset_def exact_fpu_def x_def y_def z_def)

lemma float_step_exact: "float_step exact_fpu acc = 11249 / 3800"
  by (simp add: float_step_eq float_ops_exact) (simp add: exact_fpu_def)

text \<open>
  With the constants of the source, the value a step computes is about 2.96
  in exact arithmetic, at every step and from every accumulator: the
  threshold of 100.0 is not exceeded there, and the reset of line 37 does
  not run.
\<close>

lemma float_threshold_exact: "\<not> fgt exact_fpu (float_ops exact_fpu) (flit exact_fpu 100)"
  by (simp add: float_ops_exact) (simp add: exact_fpu_def)

text \<open>
  C9. A step of the floating-point loop starts by overwriting the accumulator
  with \<open>x * y\<close>, so two steps from different accumulators end with the same
  value, and so does the whole phase. In particular a step that starts from
  the reset value ends as a step from any other value does.
\<close>

theorem float_step_ignores_accumulator:
  "float_step F acc1 = float_step F acc2
   \<and> float_step F (float_reset F) = float_step F acc2
   \<and> float_phase F acc1 = float_phase F acc2"
proof -
  have step: "float_step F u = float_step F v" for u v
    by (simp add: float_step_eq)
  have "0 < INNER_STEPS" by (simp add: INNER_STEPS_def)
  then have "float_phase F u = float_loop F (0 + 1) (float_step F u)" for u
    unfolding float_phase_def by (rule float_loop_step)
  then have "float_phase F acc1 = float_phase F acc2"
    using step [of acc1 acc2] by simp
  then show ?thesis
    using step [of acc1 acc2] step [of "float_reset F" acc2] by simp
qed

section \<open>The memory phase\<close>

lemma length_write_pass: "length (write_pass n i xs) = length xs"
proof (induction n i xs rule: write_pass.induct)
  case (1 n i xs)
  show ?case
  proof (cases "i < n")
    case True
    with 1 show ?thesis by (subst write_pass.simps) simp
  next
    case False
    then show ?thesis by (subst write_pass.simps) simp
  qed
qed

text \<open>The write pass from index \<open>i\<close> on: what it leaves at index \<open>k\<close>.\<close>

lemma write_pass_nth:
  "length xs = n \<Longrightarrow> k < n \<Longrightarrow>
   write_pass n i xs ! k = (if i \<le> k then of_nat k * 2 else xs ! k)"
proof (induction n i xs rule: write_pass.induct)
  case (1 n i xs)
  show ?case
  proof (cases "i < n")
    case True
    let ?ys = "xs[i := of_nat i * 2]"
    have len: "length ?ys = n" using 1 by simp
    have unroll: "write_pass n i xs = write_pass n (i + 1) ?ys"
      using True by (subst write_pass.simps) simp
    have IH: "write_pass n (i + 1) ?ys ! k = (if i + 1 \<le> k then of_nat k * 2 else ?ys ! k)"
      using "1.IH" [OF True len "1.prems"(2)] .
    consider "k < i" | "k = i" | "i < k" by linarith
    then show ?thesis
      unfolding unroll IH using True "1.prems"
      by cases simp_all
  next
    case False
    with 1 show ?thesis by (subst write_pass.simps) simp
  qed
qed

lemma length_accumulate_pass: "length (accumulate_pass n i xs) = length xs"
proof (induction n i xs rule: accumulate_pass.induct)
  case (1 n i xs)
  show ?case
  proof (cases "i < n")
    case True
    with 1 show ?thesis by (subst accumulate_pass.simps) simp
  next
    case False
    then show ?thesis by (subst accumulate_pass.simps) simp
  qed
qed

text \<open>
  The read-accumulate pass from index \<open>i\<close> on. Indices below \<open>i\<close> are done.
  An index \<open>k\<close> from \<open>i\<close> on that is not the last adds its right neighbour,
  which the pass has not reached yet. The last index adds element 0: as the
  pass found it when it started after index 0, and as step 0 leaves it when
  the pass starts at index 0 of a buffer of two elements or more.
\<close>

lemma accumulate_pass_nth:
  "length xs = n \<Longrightarrow> k < n \<Longrightarrow>
   accumulate_pass n i xs ! k =
     (if k < i then xs ! k
      else if k + 1 < n then xs ! k + xs ! (k + 1)
      else xs ! k + (if i = 0 \<and> 1 < n then xs ! 0 + xs ! 1 else xs ! 0))"
proof (induction n i xs rule: accumulate_pass.induct)
  case (1 n i xs)
  show ?case
  proof (cases "i < n")
    case True
    let ?ys = "xs[i := xs ! i + xs ! ((i + 1) mod n)]"
    have len: "length ?ys = n" using 1 by simp
    have unroll: "accumulate_pass n i xs = accumulate_pass n (i + 1) ?ys"
      using True by (subst accumulate_pass.simps) simp
    have IH: "accumulate_pass n (i + 1) ?ys ! k =
     (if k < i + 1 then ?ys ! k
      else if k + 1 < n then ?ys ! k + ?ys ! (k + 1)
      else ?ys ! k + (if i + 1 = 0 \<and> 1 < n then ?ys ! 0 + ?ys ! 1 else ?ys ! 0))"
      using "1.IH" [OF True len "1.prems"(2)] .
    consider "k < i" | "k = i" | "i < k" by linarith
    then show ?thesis
      unfolding unroll IH using True "1.prems"
      by cases (auto simp add: nth_list_update mod_if)
  next
    case False
    with 1 show ?thesis by (subst accumulate_pass.simps) simp
  qed
qed

lemma length_memory_phase: "length (memory_phase n xs) = length xs"
  by (simp add: memory_phase_def length_accumulate_pass length_write_pass)

lemma memory_phase_nth:
  assumes "length xs = n" and "k < n"
  shows "memory_phase n xs ! k =
     (if k + 1 < n then of_nat k * 2 + of_nat (k + 1) * 2
      else of_nat k * 2 + (if 1 < n then 2 else 0))"
proof -
  have len: "length (write_pass n 0 xs) = n"
    using assms by (simp add: length_write_pass)
  have written: "write_pass n 0 xs ! j = of_nat j * 2" if "j < n" for j
    using write_pass_nth [OF assms(1) that, of 0] by simp
  show ?thesis
    unfolding memory_phase_def accumulate_pass_nth [OF len assms(2)]
    using assms(2) by (auto simp add: written)
qed

text \<open>
  The elements are C \<^verbatim>\<open>int\<close>s. Up to \<open>2 ^ 29\<close> elements, and so for
  \<open>ARRAY_SIZE\<close>, no sum leaves the range of \<^verbatim>\<open>int\<close>: read in two's complement,
  the words are the integers of the formula.
\<close>

lemma sint_of_nat_small: "k < 2 ^ 31 \<Longrightarrow> sint (of_nat k :: s32) = int k"
  by (simp add: signed_of_nat signed_take_bit_int_eq_self)

lemma memory_phase_sint:
  assumes "length xs = n" and "k < n" and "n \<le> 2 ^ 29"
  shows "sint (memory_phase n xs ! k) =
     (if k + 1 < n then int k * 2 + (int k + 1) * 2
      else int k * 2 + (if 1 < n then 2 else 0))"
proof -
  let ?v = "if k + 1 < n then k * 2 + (k + 1) * 2 else k * 2 + (if 1 < n then 2 else 0)"
  have "memory_phase n xs ! k = of_nat ?v"
    by (simp add: memory_phase_nth [OF assms(1,2)])
  moreover have "?v < 2 ^ 31"
    using assms(2,3) by auto
  ultimately have "sint (memory_phase n xs ! k) = int ?v"
    by (simp only: sint_of_nat_small)
  then show ?thesis by simp
qed

lemma ARRAY_SIZE_small: "ARRAY_SIZE \<le> 2 ^ 29"
  by (simp add: ARRAY_SIZE_def)

text \<open>
  C1, as the claim states it, on a buffer of two elements that held 7 and 9
  when it was allocated: the last element ends as 4, and the formula
  \<open>i * 2 + ((i + 1) % M) * 2\<close> gives 2 there.
\<close>

theorem memory_phase_last_element_differs:
  "(1::nat) \<le> 2 \<and> length [7, 9 :: s32] = 2 \<and> (1::nat) < 2
   \<and> memory_phase 2 [7, 9] ! 1 = 4
   \<and> memory_phase 2 [7, 9] ! 1 \<noteq> of_nat 1 * 2 + of_nat ((1 + 1) mod 2) * 2"
  by (simp add: memory_phase_def write_pass.simps accumulate_pass.simps)

text \<open>
  C1, amended. For every buffer size \<open>M \<ge> 1\<close>, after the write pass and one
  read-accumulate pass, \<open>buffer[i] = i * 2 + ((i + 1) % M) * 2\<close> at every index
  but the last one of a buffer of two elements or more; there the pass reads
  element 0 after it has updated it, and the element ends 2 above that
  formula.
\<close>

theorem memory_phase_round_trip:
  assumes "1 \<le> M" and "length buffer = M" and "i < M"
  shows "memory_phase M buffer ! i =
     of_nat i * 2 + of_nat ((i + 1) mod M) * 2 + (if i + 1 = M \<and> 2 \<le> M then 2 else 0)"
proof (cases "i + 1 < M")
  case True
  then show ?thesis
    by (simp add: memory_phase_nth [OF assms(2,3)])
next
  case False
  with assms(3) have "i + 1 = M" by simp
  then show ?thesis
    by (auto simp add: memory_phase_nth [OF assms(2,3)])
qed

theorem memory_phase_round_trip_witness:
  "(1::nat) \<le> 3 \<and> length [7, 8, 9 :: s32] = 3 \<and> (0::nat) < 3 \<and> (2::nat) < 3
   \<and> memory_phase 3 [7, 8, 9] ! 0 = 2
   \<and> memory_phase 3 [7, 8, 9] ! 2 = 6
   \<and> memory_phase 1 [7] ! 0 = 0"
  using memory_phase_round_trip [of 3 "[7, 8, 9]" 0]
    memory_phase_round_trip [of 3 "[7, 8, 9]" 2]
    memory_phase_round_trip [of 1 "[7]" 0]
  by simp

text \<open>
  C10. The read-accumulate pass works in place and in increasing index
  order. For a buffer of \<open>M \<ge> 2\<close> elements, every element but the last ends as
  \<open>i * 2 + (i + 1) * 2\<close>, and the last, which reads element 0 after its
  update, ends as \<open>(M - 1) * 2 + (0 * 2 + 1 * 2)\<close>. For \<open>M = 1\<close> the only element
  ends as 0.
\<close>

theorem memory_phase_in_place:
  assumes "length buffer = M"
  shows "(2 \<le> M \<longrightarrow>
            (\<forall>i. i + 1 < M \<longrightarrow> memory_phase M buffer ! i = of_nat i * 2 + of_nat (i + 1) * 2)
          \<and> memory_phase M buffer ! (M - 1) = of_nat (M - 1) * 2 + (0 * 2 + 1 * 2))
       \<and> (M = 1 \<longrightarrow> memory_phase M buffer ! 0 = 0)"
proof (intro conjI impI allI)
  fix i
  assume "i + 1 < M"
  then show "memory_phase M buffer ! i = of_nat i * 2 + of_nat (i + 1) * 2"
    using memory_phase_nth [OF assms, of i] by simp
next
  assume "2 \<le> M"
  then show "memory_phase M buffer ! (M - 1) = of_nat (M - 1) * 2 + (0 * 2 + 1 * 2)"
    using memory_phase_nth [OF assms, of "M - 1"] by simp
next
  assume "M = 1"
  then show "memory_phase M buffer ! 0 = 0"
    using memory_phase_nth [OF assms, of 0] by simp
qed

theorem memory_phase_in_place_witness:
  "length [7, 8, 9 :: s32] = 3 \<and> (2::nat) \<le> 3 \<and> (0::nat) + 1 < 3 \<and> (1::nat) + 1 < 3
   \<and> memory_phase 3 [7, 8, 9] ! 0 = 2
   \<and> memory_phase 3 [7, 8, 9] ! 1 = 6
   \<and> memory_phase 3 [7, 8, 9] ! 2 = 6
   \<and> length [7 :: s32] = 1
   \<and> memory_phase 1 [7] ! 0 = 0"
  using memory_phase_in_place [of "[7, 8, 9]" 3] memory_phase_in_place [of "[7]" 1]
  by simp

section \<open>The outer loop\<close>

lemma x86_loop_not_Some:
  assumes "x86_loop F s = Some t"
  shows False
proof (rule x86_loop.raw_induct [where P = "\<lambda>_ _ _. False" and F = F and s = s and y = t])
  show "x86_loop F s = Some t" by (fact assms)
next
  fix f :: "'a fpu \<Rightarrow> 'a task_state \<Rightarrow> 'a task_state option" and G u v
  assume "\<And>G u v. f G u = Some v \<Longrightarrow> False" and "f G (round_body G u) = Some v"
  then show False by blast
qed

lemma x86_loop_None: "x86_loop F s = None"
  using x86_loop_not_Some [of F s] by (cases "x86_loop F s") auto

lemma x86_task_None: "x86_task F (Some buffer) = None"
  by (simp add: x86_task_def x86_loop_None)

lemma x86_loop_rounds: "x86_loop F s = x86_loop F ((round_body F ^^ k) s)"
proof (induction k)
  case 0
  show ?case by simp
next
  case (Suc k)
  have "x86_loop F ((round_body F ^^ k) s) = x86_loop F (round_body F ((round_body F ^^ k) s))"
    by (rule x86_loop.simps)
  with Suc show ?case by simp
qed

text \<open>
  C8. When the allocation succeeds, the routine never returns and never
  throws: after any number of rounds it is again at the head of the outer
  loop, and from no state does the loop reach the line after it.
\<close>

theorem x86_task_never_returns:
  "x86_task F (Some buffer) = None
   \<and> x86_loop F s = x86_loop F ((round_body F ^^ k) s)
   \<and> x86_loop F s = None"
  using x86_task_None [of F buffer] x86_loop_rounds [of F s k] x86_loop_None [of F s]
  by simp

section \<open>The harness\<close>

text \<open>When the system can start every thread the loop asks for, it starts them all.\<close>

lemma launch_loop_all:
  "(\<forall>t. length ts \<le> t \<and> t < length ts + nat (n - i) \<longrightarrow> spawn t) \<Longrightarrow>
   launch_loop spawn i n ts = (ts @ [length ts..<length ts + nat (n - i)], None)"
proof (induction spawn i n ts rule: launch_loop.induct)
  case (1 spawn i n ts)
  show ?case
  proof (cases "i < n")
    case True
    then have more: "nat (n - i) = Suc (nat (n - (i + 1)))"
      by simp
    have here: "spawn (length ts)"
      using "1.prems" True by simp
    have rest: "\<forall>t. length (ts @ [length ts]) \<le> t
        \<and> t < length (ts @ [length ts]) + nat (n - (i + 1)) \<longrightarrow> spawn t"
      using "1.prems" more by simp
    have "launch_loop spawn i n ts = launch_loop spawn (i + 1) n (ts @ [length ts])"
      using True here by (subst launch_loop.simps) simp
    also have "\<dots> = ((ts @ [length ts])
        @ [length (ts @ [length ts])..<length (ts @ [length ts]) + nat (n - (i + 1))], None)"
      using "1.IH" [OF True here rest] .
    also have "\<dots> = (ts @ [length ts..<length ts + nat (n - i)], None)"
      unfolding more
      using upt_conv_Cons [of "length ts" "length ts + Suc (nat (n - (i + 1)))"]
      by simp
    finally show ?thesis .
  next
    case False
    then show ?thesis by (subst launch_loop.simps) simp
  qed
qed

text \<open>When the system cannot start thread \<open>k\<close>, the loop ends there with the exception.\<close>

lemma launch_loop_fails:
  "(\<forall>t. length ts \<le> t \<and> t < k \<longrightarrow> spawn t) \<Longrightarrow> \<not> spawn k \<Longrightarrow>
   length ts \<le> k \<Longrightarrow> k < length ts + nat (n - i) \<Longrightarrow>
   launch_loop spawn i n ts = (ts @ [length ts..<k], Some System_error)"
proof (induction spawn i n ts rule: launch_loop.induct)
  case (1 spawn i n ts)
  have True: "i < n"
    using "1.prems"(3,4) by simp
  show ?case
  proof (cases "length ts = k")
    case at_k: True
    then show ?thesis
      using True "1.prems"(2) by (subst launch_loop.simps) simp
  next
    case False
    then have below: "length ts < k"
      using "1.prems"(3) by simp
    then have here: "spawn (length ts)"
      using "1.prems"(1) by simp
    have "launch_loop spawn i n ts = launch_loop spawn (i + 1) n (ts @ [length ts])"
      using True here by (subst launch_loop.simps) simp
    also have "\<dots> = ((ts @ [length ts]) @ [length (ts @ [length ts])..<k], Some System_error)"
      using "1.prems" below True by (intro "1.IH" [OF True here]) auto
    also have "\<dots> = (ts @ [length ts..<k], Some System_error)"
      using below upt_conv_Cons [of "length ts" k] by simp
    finally show ?thesis .
  qed
qed

lemma x86_task_no_buffer: "x86_task F None = Some (Inl Bad_alloc)"
  by (simp add: x86_task_def)

text \<open>
  No routine returns. When every allocation succeeds, the join loop ends
  only if it has nothing to join.
\<close>

lemma uncaught_all_running: "uncaught (map (\<lambda>t. None) ts) = None"
  by (induction ts) simp_all

lemma run_threads_alloc_ok:
  assumes "\<forall>t \<in> set ts. heap t \<noteq> None"
  shows "run_threads (map (\<lambda>t. x86_task F (heap t)) ts) = (if ts = [] then Exit 0 else Never_exits)"
proof -
  have "x86_task F (heap t) = None" if "t \<in> set ts" for t
    using assms that x86_task_None [of F] by (cases "heap t") auto
  then have running: "map (\<lambda>t. x86_task F (heap t)) ts = map (\<lambda>t. None) ts"
    by simp
  show ?thesis
    unfolding running
    by (cases ts) (simp_all add: run_threads_def uncaught_all_running)
qed

lemma run_threads_Exit:
  assumes "run_threads (map (\<lambda>t. x86_task F (heap t)) ts) = Exit code"
  shows "ts = [] \<and> code = 0"
proof (cases ts)
  case Nil
  with assms show ?thesis by (simp add: run_threads_def)
next
  case (Cons t ts')
  show ?thesis
  proof (cases "heap t")
    case None
    with assms Cons show ?thesis
      by (simp add: run_threads_def x86_task_no_buffer)
  next
    case (Some buffer)
    with assms Cons show ?thesis
      by (simp add: run_threads_def x86_task_None split: option.splits)
  qed
qed

lemma main_parse_error:
  "thread_count hc argv = Inl e \<Longrightarrow>
   main F spawn heap hc argv = \<lparr>launched = 0, status = Uncaught e\<rparr>"
  by (simp add: main_def)

lemma main_all_started:
  assumes "thread_count hc argv = Inr n"
    and "\<forall>t < nat n. spawn t \<and> heap t \<noteq> None"
  shows "main F spawn heap hc argv =
    \<lparr>launched = nat n, status = (if n \<le> 0 then Exit 0 else Never_exits)\<rparr>"
proof -
  have "launch_loop spawn 0 n [] = ([0..<nat n], None)"
    using assms(2) launch_loop_all [of "[]" n 0 spawn] by simp
  moreover have "run_threads (map (\<lambda>t. x86_task F (heap t)) [0..<nat n])
      = (if [0..<nat n] = [] then Exit 0 else Never_exits)"
    using assms(2) by (intro run_threads_alloc_ok) simp
  ultimately show ?thesis
    using assms(1) by (auto simp add: main_def)
qed

lemma main_thread_not_started:
  assumes "thread_count hc argv = Inr n"
    and "\<forall>t < k. spawn t" and "\<not> spawn k" and "k < nat n"
  shows "main F spawn heap hc argv = \<lparr>launched = k, status = Uncaught System_error\<rparr>"
proof -
  have "launch_loop spawn 0 n [] = ([0..<k], Some System_error)"
    using assms(2,3,4) launch_loop_fails [of "[]" k spawn n 0] by simp
  then show ?thesis
    using assms(1) by (simp add: main_def)
qed

lemma main_Exit:
  assumes "status (main F spawn heap hc argv) = Exit code"
  shows "code = 0 \<and> launched (main F spawn heap hc argv) = 0"
proof (cases "thread_count hc argv")
  case (Inl e)
  with assms show ?thesis by (simp add: main_def)
next
  case (Inr n)
  obtain ts err where loop: "launch_loop spawn 0 n [] = (ts, err)"
    by (cases "launch_loop spawn 0 n []")
  show ?thesis
  proof (cases err)
    case None
    with assms Inr loop
    have "run_threads (map (\<lambda>t. x86_task F (heap t)) ts) = Exit code"
      by (simp add: main_def)
    then have "ts = [] \<and> code = 0"
      by (rule run_threads_Exit)
    then show ?thesis
      using Inr loop None by (simp add: main_def)
  next
    case (Some e)
    with assms Inr loop show ?thesis by (simp add: main_def)
  qed
qed

lemma thread_count_argument: "thread_count hc (prog # S # rest) = stoi S"
  by (simp add: thread_count_def)

lemma thread_count_default: "length argv \<le> 1 \<Longrightarrow> thread_count hc argv = Inr (sint hc)"
  by (simp add: thread_count_def)

text \<open>The harness looks at its arguments through the thread count only.\<close>

lemma main_cong:
  "thread_count hc argv = thread_count hc argv' \<Longrightarrow>
   main F spawn heap hc argv = main F spawn heap hc argv'"
  by (simp add: main_def)

lemma stoi_Invalid_argument_iff:
  "stoi S = Inl Invalid_argument
   \<longleftrightarrow> takeWhile isdigit (skip_sign (dropWhile isspace S)) = []"
  by (simp add: stoi_def Let_def)

lemma digit_value_nonneg: "isdigit ch \<Longrightarrow> 0 \<le> digit_value ch"
proof -
  assume "isdigit ch"
  then have "(48::nat) \<le> of_char ch"
    by (simp add: isdigit_def)
  then have "int 48 \<le> int (of_char ch)"
    by (simp only: of_nat_le_iff)
  then have "(48::int) \<le> of_char ch"
    by (simp only: of_nat_of_char of_nat_numeral)
  then show ?thesis
    by (simp add: digit_value_def)
qed

lemma digits_value_nonneg:
  "\<forall>ch \<in> set ds. isdigit ch \<Longrightarrow> 0 \<le> acc \<Longrightarrow> 0 \<le> digits_value acc ds"
proof (induction ds arbitrary: acc)
  case Nil
  then show ?case by simp
next
  case (Cons ch ds)
  then have "0 \<le> acc * 10 + digit_value ch"
    using digit_value_nonneg [of ch] by simp
  with Cons show ?case by simp
qed

text \<open>A string of digits is read whole, and what follows it is not read.\<close>

lemma stoi_digits:
  assumes "ds \<noteq> []" and "\<forall>ch \<in> set ds. isdigit ch" and "t = [] \<or> \<not> isdigit (hd t)"
  shows "stoi (ds @ t) =
    (if INT_MAX < digits_value 0 ds then Inl Out_of_range else Inr (digits_value 0 ds))"
proof -
  have digit: "isdigit (hd ds)"
    using assms(1,2) by (cases ds) auto
  then have no_space: "\<not> isspace (hd ds)"
    by (auto simp add: isspace_def isdigit_def)
  have no_sign: "hd ds \<noteq> CHR ''-''" "hd ds \<noteq> CHR ''+''"
    using digit by (auto simp add: isdigit_def)
  have spaces: "dropWhile isspace (ds @ t) = ds @ t"
    using assms(1) no_space by (cases ds) simp_all
  have sign: "skip_sign (ds @ t) = ds @ t"
    using assms(1) no_sign by (simp add: skip_sign_def)
  have run: "takeWhile isdigit (ds @ t) = ds"
    using assms(2,3) by (cases t) simp_all
  have "\<not> digits_value 0 ds < INT_MIN"
    using digits_value_nonneg [OF assms(2), of 0] by (simp add: INT_MIN_def)
  then show ?thesis
    using assms(1) no_sign by (simp add: stoi_def spaces sign run Let_def)
qed

lemma stoi_trailing:
  assumes "ds \<noteq> []" and "\<forall>ch \<in> set ds. isdigit ch" and "t = [] \<or> \<not> isdigit (hd t)"
  shows "stoi (ds @ t) = stoi ds"
  using stoi_digits [OF assms] stoi_digits [OF assms(1,2), of "[]"] by simp

lemma stoi_leading_space: "\<forall>ch \<in> set ws. isspace ch \<Longrightarrow> stoi (ws @ S) = stoi S"
  by (simp add: stoi_def dropWhile_append2)

lemma sint_small: "unat w < 2 ^ 31 \<Longrightarrow> sint w = int (unat w)" for w :: u32
  using sint_of_nat_small [of "unat w"] by simp

lemmas stoi_eval =
  stoi_def skip_sign_def isspace_def isdigit_def digit_value_def INT_MIN_def INT_MAX_def

text \<open>
  Two runs that end by an exception after the argument was read: the system
  starts two of four threads only, and the allocation fails in one of four
  threads, which in the schedule of the model have all been started by
  then.
\<close>

lemma main_system_error:
  "main exact_fpu (\<lambda>t. t < 2) (\<lambda>t. Some (replicate ARRAY_SIZE 0)) 8 [''mixed_load'', ''4'']
    = \<lparr>launched = 2, status = Uncaught System_error\<rparr>"
  using main_thread_not_started [of 8 "[''mixed_load'', ''4'']" 4 2 "\<lambda>t. t < 2"]
  by (simp add: thread_count_def stoi_eval)

lemma main_bad_alloc:
  "main exact_fpu (\<lambda>t. True) (\<lambda>t. if t = 1 then None else Some (replicate ARRAY_SIZE 0)) 8
     [''mixed_load'', ''4'']
    = \<lparr>launched = 4, status = Uncaught Bad_alloc\<rparr>"
  by (simp add: main_def thread_count_def stoi_eval launch_loop.simps run_threads_def
      x86_task_None x86_task_no_buffer)

text \<open>
  C2, as the claim states it: the argument \<^verbatim>\<open>4abc\<close> has characters that are not
  digits after its digit, and on a system that can start four threads and
  give each its buffer, the harness launches four Load Units and waits for
  them; it does not end with an error.
\<close>

theorem trailing_characters_accepted:
  "\<not> isdigit CHR ''a''
   \<and> main exact_fpu (\<lambda>t. True) (\<lambda>t. Some (replicate ARRAY_SIZE 0)) 8 [''mixed_load'', ''4abc'']
       = \<lparr>launched = 4, status = Never_exits\<rparr>"
  using main_all_started [of 8 "[''mixed_load'', ''4abc'']" 4 "\<lambda>t. True"
      "\<lambda>t. Some (replicate ARRAY_SIZE 0)" exact_fpu]
  by (simp add: thread_count_def stoi_eval)

text \<open>
  C2, amended, for every argument \<open>S\<close>.
  \<^enum> When \<^verbatim>\<open>std::stoi\<close> returns a positive integer \<open>n\<close> for \<open>S\<close>, and the system
    can start each of the \<open>n\<close> threads and give each its buffer, the harness
    launches exactly \<open>n\<close> Load Units, and then does not exit.
  \<^enum> When \<^verbatim>\<open>std::stoi\<close> throws, the harness ends by that exception and has
    launched no Load Unit.
  \<^enum> It throws \<^verbatim>\<open>std::invalid_argument\<close> exactly when no digit follows the
    leading white space and the sign, both optional.
  \<^enum> A string of digits is read as its decimal value when that is at most
    \<^verbatim>\<open>INT_MAX\<close>, and makes it throw \<^verbatim>\<open>std::out_of_range\<close> when it is above.
  \<^enum> Characters after a string of digits are not an error: the harness does
    what it does for the digits alone.
  \<^enum> Leading white space is skipped: the harness does what it does for the
    argument without it.
\<close>

theorem argument_parsing:
  "(stoi S = Inr n \<and> 0 < n \<and> (\<forall>t < nat n. spawn t \<and> heap t \<noteq> None) \<longrightarrow>
      main F spawn heap hc (prog # S # rest) = \<lparr>launched = nat n, status = Never_exits\<rparr>)
   \<and> (stoi S = Inl e \<longrightarrow>
      main F spawn heap hc (prog # S # rest) = \<lparr>launched = 0, status = Uncaught e\<rparr>)
   \<and> (stoi S = Inl Invalid_argument)
       = (takeWhile isdigit (skip_sign (dropWhile isspace S)) = [])
   \<and> (ds \<noteq> [] \<and> (\<forall>ch \<in> set ds. isdigit ch) \<longrightarrow>
      stoi ds = (if INT_MAX < digits_value 0 ds then Inl Out_of_range
                 else Inr (digits_value 0 ds)))
   \<and> (ds \<noteq> [] \<and> (\<forall>ch \<in> set ds. isdigit ch) \<and> (t = [] \<or> \<not> isdigit (hd t)) \<longrightarrow>
      main F spawn heap hc (prog # (ds @ t) # rest) = main F spawn heap hc (prog # ds # rest))
   \<and> ((\<forall>ch \<in> set ws. isspace ch) \<longrightarrow>
      main F spawn heap hc (prog # (ws @ S) # rest) = main F spawn heap hc (prog # S # rest))"
proof (intro conjI impI)
  assume "stoi S = Inr n \<and> 0 < n \<and> (\<forall>t < nat n. spawn t \<and> heap t \<noteq> None)"
  then show "main F spawn heap hc (prog # S # rest) = \<lparr>launched = nat n, status = Never_exits\<rparr>"
    using main_all_started [of hc "prog # S # rest" n spawn heap F]
    by (simp add: thread_count_argument)
next
  assume "stoi S = Inl e"
  then show "main F spawn heap hc (prog # S # rest) = \<lparr>launched = 0, status = Uncaught e\<rparr>"
    by (simp add: main_parse_error thread_count_argument)
next
  show "(stoi S = Inl Invalid_argument)
      = (takeWhile isdigit (skip_sign (dropWhile isspace S)) = [])"
    by (rule stoi_Invalid_argument_iff)
next
  assume "ds \<noteq> [] \<and> (\<forall>ch \<in> set ds. isdigit ch)"
  then show "stoi ds = (if INT_MAX < digits_value 0 ds then Inl Out_of_range
      else Inr (digits_value 0 ds))"
    using stoi_digits [of ds "[]"] by simp
next
  assume "ds \<noteq> [] \<and> (\<forall>ch \<in> set ds. isdigit ch) \<and> (t = [] \<or> \<not> isdigit (hd t))"
  then have "stoi (ds @ t) = stoi ds"
    using stoi_trailing [of ds t] by blast
  then show "main F spawn heap hc (prog # (ds @ t) # rest) = main F spawn heap hc (prog # ds # rest)"
    by (intro main_cong) (simp add: thread_count_argument)
next
  assume "\<forall>ch \<in> set ws. isspace ch"
  then have "stoi (ws @ S) = stoi S"
    by (rule stoi_leading_space)
  then show "main F spawn heap hc (prog # (ws @ S) # rest) = main F spawn heap hc (prog # S # rest)"
    by (intro main_cong) (simp add: thread_count_argument)
qed

theorem argument_parsing_witness:
  "stoi ''12'' = Inr 12 \<and> (0::int) < 12
   \<and> main exact_fpu (\<lambda>t. True) (\<lambda>t. Some (replicate ARRAY_SIZE 0)) 8 [''mixed_load'', ''12'']
       = \<lparr>launched = nat 12, status = Never_exits\<rparr>
   \<and> takeWhile isdigit (skip_sign (dropWhile isspace ''abc'')) = []
   \<and> stoi ''abc'' = Inl Invalid_argument
   \<and> main exact_fpu (\<lambda>t. True) (\<lambda>t. Some (replicate ARRAY_SIZE 0)) 8 [''mixed_load'', ''abc'']
       = \<lparr>launched = 0, status = Uncaught Invalid_argument\<rparr>
   \<and> ''2147483648'' \<noteq> [] \<and> INT_MAX < digits_value 0 ''2147483648''
   \<and> stoi ''2147483648'' = Inl Out_of_range
   \<and> main exact_fpu (\<lambda>t. True) (\<lambda>t. Some (replicate ARRAY_SIZE 0)) 8
        [''mixed_load'', ''2147483648'']
       = \<lparr>launched = 0, status = Uncaught Out_of_range\<rparr>
   \<and> ''12'' \<noteq> [] \<and> isdigit CHR ''1'' \<and> isdigit CHR ''2'' \<and> \<not> isdigit (hd ''abc'')
   \<and> main exact_fpu (\<lambda>t. True) (\<lambda>t. Some (replicate ARRAY_SIZE 0)) 8
        [''mixed_load'', ''12'' @ ''abc'']
       = main exact_fpu (\<lambda>t. True) (\<lambda>t. Some (replicate ARRAY_SIZE 0)) 8 [''mixed_load'', ''12'']
   \<and> isspace CHR '' ''
   \<and> main exact_fpu (\<lambda>t. True) (\<lambda>t. Some (replicate ARRAY_SIZE 0)) 8
        [''mixed_load'', '' '' @ ''12'']
       = main exact_fpu (\<lambda>t. True) (\<lambda>t. Some (replicate ARRAY_SIZE 0)) 8 [''mixed_load'', ''12'']"
proof -
  note numeric =
    argument_parsing [where S = "''12''" and n = 12 and ds = "''12''" and t = "''abc''"
      and ws = "'' ''" and F = exact_fpu and spawn = "\<lambda>t. True"
      and heap = "\<lambda>t. Some (replicate ARRAY_SIZE 0)" and hc = 8
      and prog = "''mixed_load''" and rest = "[]"]
  note letters =
    argument_parsing [where S = "''abc''" and e = Invalid_argument
      and F = exact_fpu and spawn = "\<lambda>t. True"
      and heap = "\<lambda>t. Some (replicate ARRAY_SIZE 0)" and hc = 8
      and prog = "''mixed_load''" and rest = "[]"]
  note large =
    argument_parsing [where S = "''2147483648''" and e = Out_of_range and ds = "''2147483648''"
      and F = exact_fpu and spawn = "\<lambda>t. True"
      and heap = "\<lambda>t. Some (replicate ARRAY_SIZE 0)" and hc = 8
      and prog = "''mixed_load''" and rest = "[]"]
  have twelve: "stoi ''12'' = Inr 12" and positive: "(0::int) < 12"
    by (simp_all add: stoi_eval)
  have resources: "\<forall>t < nat 12. (\<lambda>t. True) t \<and> (\<lambda>t. Some (replicate ARRAY_SIZE 0)) t \<noteq> None"
    by simp
  have none: "takeWhile isdigit (skip_sign (dropWhile isspace ''abc'')) = []"
    by (simp add: stoi_eval)
  have nonempty: "''12'' \<noteq> []" and digits: "\<forall>ch \<in> set ''12''. isdigit ch"
    and one: "isdigit CHR ''1''" and two: "isdigit CHR ''2''"
    and letter: "\<not> isdigit (hd ''abc'')"
    and space: "isspace CHR '' ''" and spaces: "\<forall>ch \<in> set '' ''. isspace ch"
    by (simp_all add: stoi_eval)
  have big: "''2147483648'' \<noteq> []" and big_digits: "\<forall>ch \<in> set ''2147483648''. isdigit ch"
    and above: "INT_MAX < digits_value 0 ''2147483648''"
    by (simp_all add: stoi_eval)
  have launch: "main exact_fpu (\<lambda>t. True) (\<lambda>t. Some (replicate ARRAY_SIZE 0)) 8
        [''mixed_load'', ''12'']
      = \<lparr>launched = nat 12, status = Never_exits\<rparr>"
    using numeric twelve positive resources by blast
  have invalid: "stoi ''abc'' = Inl Invalid_argument"
    using letters none by blast
  have abort: "main exact_fpu (\<lambda>t. True) (\<lambda>t. Some (replicate ARRAY_SIZE 0)) 8
        [''mixed_load'', ''abc'']
      = \<lparr>launched = 0, status = Uncaught Invalid_argument\<rparr>"
    using letters invalid by blast
  have range: "stoi ''2147483648'' = Inl Out_of_range"
    using large big big_digits above by simp
  have overflow: "main exact_fpu (\<lambda>t. True) (\<lambda>t. Some (replicate ARRAY_SIZE 0)) 8
        [''mixed_load'', ''2147483648'']
      = \<lparr>launched = 0, status = Uncaught Out_of_range\<rparr>"
    using large range by blast
  have trailing: "main exact_fpu (\<lambda>t. True) (\<lambda>t. Some (replicate ARRAY_SIZE 0)) 8
        [''mixed_load'', ''12'' @ ''abc'']
      = main exact_fpu (\<lambda>t. True) (\<lambda>t. Some (replicate ARRAY_SIZE 0)) 8 [''mixed_load'', ''12'']"
    using numeric nonempty digits letter by blast
  have leading: "main exact_fpu (\<lambda>t. True) (\<lambda>t. Some (replicate ARRAY_SIZE 0)) 8
        [''mixed_load'', '' '' @ ''12'']
      = main exact_fpu (\<lambda>t. True) (\<lambda>t. Some (replicate ARRAY_SIZE 0)) 8 [''mixed_load'', ''12'']"
    using numeric spaces by blast
  show ?thesis
    using twelve positive launch none invalid abort big above range overflow
      nonempty one two letter trailing space leading
    by blast
qed

text \<open>
  C3, as the claim states it: with the argument \<^verbatim>\<open>0\<close> the thread count is 0,
  and the program launches no Load Unit and returns 0.
\<close>

theorem zero_count_exits_zero:
  "thread_count 8 [''mixed_load'', ''0''] = Inr 0
   \<and> main exact_fpu (\<lambda>t. True) (\<lambda>t. Some (replicate ARRAY_SIZE 0)) 8 [''mixed_load'', ''0'']
       = \<lparr>launched = 0, status = Exit 0\<rparr>"
  using main_all_started [of 8 "[''mixed_load'', ''0'']" 0 "\<lambda>t. True"
      "\<lambda>t. Some (replicate ARRAY_SIZE 0)" exact_fpu]
  by (simp add: thread_count_def stoi_eval)

text \<open>
  C3, amended. For every parsed or derived thread count that is 0 or
  negative, the program launches no Load Unit and returns 0: the count is
  neither rejected nor raised to 1. Whenever the program returns at all, it
  returns 0 and has launched no Load Unit.
\<close>

theorem nonpositive_thread_count:
  "(thread_count hc argv = Inr n \<and> n \<le> 0 \<longrightarrow>
      main F spawn heap hc argv = \<lparr>launched = 0, status = Exit 0\<rparr>)
   \<and> (status (main F spawn heap hc argv) = Exit code \<longrightarrow>
      code = 0 \<and> launched (main F spawn heap hc argv) = 0)"
proof (intro conjI impI)
  assume "thread_count hc argv = Inr n \<and> n \<le> 0"
  then show "main F spawn heap hc argv = \<lparr>launched = 0, status = Exit 0\<rparr>"
    using main_all_started [of hc argv n spawn heap F] by simp
next
  assume "status (main F spawn heap hc argv) = Exit code"
  then show "code = 0" and "launched (main F spawn heap hc argv) = 0"
    using main_Exit [of F spawn heap hc argv code] by simp_all
qed

theorem nonpositive_thread_count_witness:
  "thread_count 8 [''mixed_load'', ''-3''] = Inr (- 3) \<and> (- 3 :: int) \<le> 0
   \<and> main exact_fpu (\<lambda>t. True) (\<lambda>t. Some (replicate ARRAY_SIZE 0)) 8 [''mixed_load'', ''-3'']
       = \<lparr>launched = 0, status = Exit 0\<rparr>
   \<and> status (main exact_fpu (\<lambda>t. True) (\<lambda>t. Some (replicate ARRAY_SIZE 0)) 8
        [''mixed_load'', ''-3'']) = Exit 0
   \<and> thread_count 0 [''mixed_load''] = Inr 0
   \<and> main exact_fpu (\<lambda>t. True) (\<lambda>t. Some (replicate ARRAY_SIZE 0)) 0 [''mixed_load'']
       = \<lparr>launched = 0, status = Exit 0\<rparr>"
proof -
  have parsed: "thread_count 8 [''mixed_load'', ''-3''] = Inr (- 3)"
    by (simp add: thread_count_def stoi_eval)
  have derived: "thread_count 0 [''mixed_load''] = Inr 0"
    by (simp add: thread_count_def)
  show ?thesis
    using
      nonpositive_thread_count [where hc = 8 and argv = "[''mixed_load'', ''-3'']" and n = "- 3"
        and F = exact_fpu and spawn = "\<lambda>t. True"
        and heap = "\<lambda>t. Some (replicate ARRAY_SIZE 0)" and code = 0]
      nonpositive_thread_count [where hc = 0 and argv = "[''mixed_load'']" and n = 0
        and F = exact_fpu and spawn = "\<lambda>t. True"
        and heap = "\<lambda>t. Some (replicate ARRAY_SIZE 0)" and code = 0]
    by (simp add: parsed derived)
qed

text \<open>
  C4, as the claim states it: without an argument, on a host that reports 0
  processors, the harness launches no Load Unit, neither one nor another
  number above zero, and returns 0.
\<close>

theorem unknown_processor_count_launches_none:
  "length [''mixed_load''] \<le> 1
   \<and> launched (main exact_fpu (\<lambda>t. True) (\<lambda>t. Some (replicate ARRAY_SIZE 0)) 0
        [''mixed_load'']) = 0
   \<and> launched (main exact_fpu (\<lambda>t. True) (\<lambda>t. Some (replicate ARRAY_SIZE 0)) 0
        [''mixed_load'']) \<noteq> 1
   \<and> status (main exact_fpu (\<lambda>t. True) (\<lambda>t. Some (replicate ARRAY_SIZE 0)) 0
        [''mixed_load'']) = Exit 0"
  using main_all_started [of 0 "[''mixed_load'']" 0 "\<lambda>t. True"
      "\<lambda>t. Some (replicate ARRAY_SIZE 0)" exact_fpu]
  by (simp add: thread_count_def)

text \<open>
  C4, amended. Without an argument, when the system can start every thread
  and give each its buffer, the number of Load Units launched is the
  processor count the host reports, as the \<^verbatim>\<open>int\<close> it is stored in reads it:
  the count itself when it is below \<open>2 ^ 31\<close>, and the harness then does not
  exit when the count is above zero. When the host reports 0, the harness
  launches no Load Unit and returns 0; there is no fallback to 1.
\<close>

theorem default_thread_count:
  assumes "length argv \<le> 1"
  shows "((\<forall>t < nat (sint hc). spawn t \<and> heap t \<noteq> None) \<longrightarrow>
          launched (main F spawn heap hc argv) = nat (sint hc))
     \<and> (unat hc < 2 ^ 31 \<and> (\<forall>t < unat hc. spawn t \<and> heap t \<noteq> None) \<longrightarrow>
          main F spawn heap hc argv
            = \<lparr>launched = unat hc, status = (if hc = 0 then Exit 0 else Never_exits)\<rparr>)
     \<and> (hc = 0 \<longrightarrow> main F spawn heap hc argv = \<lparr>launched = 0, status = Exit 0\<rparr>)"
proof (intro conjI impI)
  note count = thread_count_default [OF assms, of hc]
  {
    assume "\<forall>t < nat (sint hc). spawn t \<and> heap t \<noteq> None"
    then show "launched (main F spawn heap hc argv) = nat (sint hc)"
      using main_all_started [OF count, of spawn heap F] by simp
  next
    assume small: "unat hc < 2 ^ 31 \<and> (\<forall>t < unat hc. spawn t \<and> heap t \<noteq> None)"
    then have reads: "sint hc = int (unat hc)"
      by (simp add: sint_small)
    have started: "main F spawn heap hc argv
        = \<lparr>launched = nat (sint hc), status = (if sint hc \<le> 0 then Exit 0 else Never_exits)\<rparr>"
      using small main_all_started [OF count, of spawn heap F] by (simp add: reads)
    have number: "nat (sint hc) = unat hc"
      unfolding reads by simp
    have zero: "(sint hc \<le> 0) = (hc = 0)"
      unfolding reads by (simp add: unsigned_eq_0_iff)
    show "main F spawn heap hc argv
        = \<lparr>launched = unat hc, status = (if hc = 0 then Exit 0 else Never_exits)\<rparr>"
      unfolding started number zero ..
  next
    assume "hc = 0"
    then show "main F spawn heap hc argv = \<lparr>launched = 0, status = Exit 0\<rparr>"
      using main_all_started [OF count, of spawn heap F] by simp
  }
qed

theorem default_thread_count_witness:
  "length [''mixed_load''] \<le> 1 \<and> unat (8 :: u32) < 2 ^ 31
   \<and> launched (main exact_fpu (\<lambda>t. True) (\<lambda>t. Some (replicate ARRAY_SIZE 0)) 8
        [''mixed_load'']) = 8
   \<and> main exact_fpu (\<lambda>t. True) (\<lambda>t. Some (replicate ARRAY_SIZE 0)) 8 [''mixed_load'']
       = \<lparr>launched = 8, status = Never_exits\<rparr>
   \<and> main exact_fpu (\<lambda>t. True) (\<lambda>t. Some (replicate ARRAY_SIZE 0)) 0 [''mixed_load'']
       = \<lparr>launched = 0, status = Exit 0\<rparr>"
proof -
  have argc: "length [''mixed_load''] \<le> 1" by simp
  show ?thesis
    using
      default_thread_count [OF argc, of 8 "\<lambda>t. True" "\<lambda>t. Some (replicate ARRAY_SIZE 0)" exact_fpu]
      default_thread_count [OF argc, of 0 "\<lambda>t. True" "\<lambda>t. Some (replicate ARRAY_SIZE 0)" exact_fpu]
    by simp
qed

end
